theory Spec2Isabelle
  imports Main
begin

section \<open>The Etherscan ingestor: \<^verbatim>\<open>src/assignment/ingest.py\<close>\<close>

text \<open>
  A shallow embedding of the ingestion pipeline: the range partitioner
  \<^verbatim>\<open>__block_ranges\<close>, the remote client \<^verbatim>\<open>__call_etherscan\<close>, the producer
  \<^verbatim>\<open>call_api_and_produce\<close>, the identity resolver \<^verbatim>\<open>__get_or_create_address\<close>,
  the batch flush \<^verbatim>\<open>__save\<close> and the consumer \<^verbatim>\<open>consume\<close>.
  Python's unbounded integers are \<open>int\<close>, exceptions are values of \<open>py_error\<close>,
  and a loop that may run forever returns \<open>None\<close> when it does not return.
  Leading underscores of the Python names are dropped.
\<close>

subsection \<open>The range partitioner\<close>

text \<open>
  \<^verbatim>\<open>
  def __block_ranges(start, end, step):
      current = start
      while current <= end:
          yield current, min(current + step - 1, end)
          current += step
  \<close>
  The generator is modelled by the list of everything it yields. With \<open>step \<le> 0\<close>
  and \<open>start \<le> end\<close> the Python generator never stops; the model then has the
  value \<open>None\<close>.
\<close>

partial_function (option) block_ranges :: "int \<Rightarrow> int \<Rightarrow> int \<Rightarrow> (int \<times> int) list option" where
  "block_ranges current ending step =
     (if current \<le> ending
      then Option.bind (block_ranges (current + step) ending step)
             (\<lambda>rest. Some ((current, min (current + step - 1) ending) # rest))
      else Some [])"

text \<open>The blocks of an inclusive range, and of a sequence of ranges, in order.\<close>

definition blocks_of :: "int \<times> int \<Rightarrow> int list" where
  "blocks_of r = [fst r..snd r]"

definition covered :: "(int \<times> int) list \<Rightarrow> int list" where
  "covered rs = concat (map blocks_of rs)"

subsection \<open>Python values and exceptions\<close>

text \<open>
  The exceptions the modelled code can meet. \<open>RateLimitReached\<close> is the
  \<^verbatim>\<open>Exception("Max rate limit reached after retrying")\<close> of the client,
  \<open>TransportError\<close> stands for whatever \<^verbatim>\<open>requests.get\<close> or \<^verbatim>\<open>response.json()\<close>
  raises, \<open>OperationalError\<close> for any database error that is not an
  \<open>IntegrityError\<close>.
\<close>

datatype py_error =
    KeyError string
  | ValueError
  | TypeError
  | OverflowError
  | OSError
  | RateLimitReached
  | TransportError
  | IntegrityError string
  | OperationalError
  | NoResultFound
  | MultipleResultsFound

fun is_integrity_error :: "py_error \<Rightarrow> bool" where
  "is_integrity_error (IntegrityError h) = True"
| "is_integrity_error e = False"

text \<open>A raw record of the API is a JSON object with string values: a dict.\<close>

type_synonym raw = "(string \<times> string) list"

definition getitem :: "raw \<Rightarrow> string \<Rightarrow> py_error + string" where
  "getitem d k = (case map_of d k of None \<Rightarrow> Inl (KeyError k) | Some v \<Rightarrow> Inr v)"

text \<open>
  Python's \<^verbatim>\<open>int(s)\<close> on a string: surrounding whitespace (tab, line feed,
  vertical tab, form feed, carriage return, space) is stripped, a sign is optional,
  the digits are decimal and may be separated by single underscores; a string of
  more than 4300 digits is refused (the default limit of CPython since 3.11; the
  source needs 3.12 for its nested f-string quotes). Anything else raises
  \<^verbatim>\<open>ValueError\<close> (here \<open>None\<close>). Only ASCII is modelled.
\<close>

definition is_space :: "char \<Rightarrow> bool" where
  "is_space c = (let n = (of_char c :: nat) in (9 \<le> n \<and> n \<le> 13) \<or> n = 32)"

definition is_digit :: "char \<Rightarrow> bool" where
  "is_digit c = (let n = (of_char c :: nat) in 48 \<le> n \<and> n \<le> 57)"

definition digit_val :: "char \<Rightarrow> nat" where
  "digit_val c = of_char c - 48"

definition strip :: "string \<Rightarrow> string" where
  "strip s = rev (dropWhile is_space (rev (dropWhile is_space s)))"

fun parse_digits :: "nat \<Rightarrow> string \<Rightarrow> nat option" where
  "parse_digits acc [] = Some acc"
| "parse_digits acc (c # cs) =
     (if is_digit c then parse_digits (10 * acc + digit_val c) cs
      else if c = CHR ''_'' then
        (case cs of
           [] \<Rightarrow> None
         | d # ds \<Rightarrow> if is_digit d then parse_digits (10 * acc + digit_val d) ds else None)
      else None)"

definition parse_nat :: "string \<Rightarrow> nat option" where
  "parse_nat s =
     (if length (filter is_digit s) > 4300 then None
      else (case s of
              [] \<Rightarrow> None
            | c # cs \<Rightarrow> if is_digit c then parse_digits (digit_val c) cs else None))"

definition py_int :: "string \<Rightarrow> int option" where
  "py_int s =
     (case strip s of
        [] \<Rightarrow> None
      | c # cs \<Rightarrow>
          if c = CHR ''-'' then map_option (\<lambda>n. - int n) (parse_nat cs)
          else if c = CHR ''+'' then map_option int (parse_nat cs)
          else map_option int (parse_nat (c # cs)))"

text \<open>\<^verbatim>\<open>int(d[k])\<close>: \<^verbatim>\<open>KeyError\<close> when the key is missing, \<^verbatim>\<open>ValueError\<close> when the
  string is no integer.\<close>

definition int_field :: "raw \<Rightarrow> string \<Rightarrow> py_error + int" where
  "int_field d k =
     (case getitem d k of
        Inl e \<Rightarrow> Inl e
      | Inr s \<Rightarrow> (case py_int s of None \<Rightarrow> Inl ValueError | Some v \<Rightarrow> Inr v))"

subsection \<open>Configuration\<close>

text \<open>
  \<^verbatim>\<open>src/assignment/config.py\<close> is not among the sources; the constants the code
  imports from it are parameters of the model.
\<close>

record config =
  RECORD_RETRIEVAL_LIMIT :: int
  BASE_BLOCK_ATTEMPT :: int
  BLOCK_ATTEMPTS :: "int list"
  SAVE_BATCH_LIMIT :: int
  DEV_MODE :: bool
  DEV_STEP :: int

subsection \<open>The remote ledger client\<close>

text \<open>
  \<^verbatim>\<open>
  def __call_etherscan(address, thread_id=None, startblock=0, endblock=99999999,
                       sort="asc", retries=4, delay=API_RATE_LIMIT_DELAY):
      api_url = (...)
      for attempt in range(retries):
          with api_call_semaphore:
              __log_with_thread_id(...)
              response = requests.get(api_url)
              data = response.json()
              time.sleep(delay)
          if data['result'] != 'Max rate limit reached':
              return data
      __log_thread_error(thread_id, startblock, endblock)
      raise Exception("Max rate limit reached after retrying")
  \<close>
  The remote API is the environment: \<open>api n startblock endblock\<close> is the outcome of
  the \<open>n\<close>-th request of the run, for that block window (address, sort order and
  key are fixed). An outcome is the \<^verbatim>\<open>result\<close> entry of the JSON body (a list of
  records or a string; \<open>None\<close> when the body has no such key) or a failure of the
  transport or of the JSON parser. The state \<open>net\<close> counts the requests, the
  acquisitions and releases of \<^verbatim>\<open>api_call_semaphore\<close>, and keeps what
  \<^verbatim>\<open>__log_thread_error\<close> logs: the caller's thread id and the block range.
\<close>

datatype api_result = ResultList "raw list" | ResultStr string

datatype http_outcome = Body "api_result option" | Failure py_error

type_synonym api = "nat \<Rightarrow> int \<Rightarrow> int \<Rightarrow> http_outcome"

record net =
  calls :: nat
  sem_acquired :: nat
  sem_released :: nat
  error_log :: "(nat option \<times> int \<times> int) list"

fun call_etherscan :: "api \<Rightarrow> nat option \<Rightarrow> int \<Rightarrow> int \<Rightarrow> nat \<Rightarrow> net \<Rightarrow> (py_error + api_result) \<times> net" where
  "call_etherscan api thread_id startblock endblock 0 s =
     (Inl RateLimitReached, s\<lparr>error_log := error_log s @ [(thread_id, startblock, endblock)]\<rparr>)"
| "call_etherscan api thread_id startblock endblock (Suc retries) s =
     (let outcome = api (calls s) startblock endblock;
          s' = s\<lparr>calls := Suc (calls s),
                  sem_acquired := Suc (sem_acquired s),
                  sem_released := Suc (sem_released s)\<rparr>
      in case outcome of
           Failure e \<Rightarrow> (Inl e, s')
         | Body None \<Rightarrow> (Inl (KeyError ''result''), s')
         | Body (Some d) \<Rightarrow>
             if d \<noteq> ResultStr ''Max rate limit reached'' then (Inr d, s')
             else call_etherscan api thread_id startblock endblock retries s')"

subsection \<open>The producer\<close>

text \<open>
  \<^verbatim>\<open>len(data["result"])\<close> and the truth value of \<^verbatim>\<open>data["result"]\<close>, for a list or a
  string.
\<close>

fun py_len :: "api_result \<Rightarrow> nat" where
  "py_len (ResultList rs) = length rs"
| "py_len (ResultStr s) = length s"

definition falsy :: "api_result \<Rightarrow> bool" where
  "falsy d = (py_len d = 0)"

text \<open>
  The filter, \<^verbatim>\<open>int(tx["value"]) > 0 and tx["isError"] != "1"\<close>: the second operand
  is evaluated only when the first holds.
\<close>

definition keeps :: "raw \<Rightarrow> py_error + bool" where
  "keeps tx =
     (case int_field tx ''value'' of
        Inl e \<Rightarrow> Inl e
      | Inr v \<Rightarrow>
          if v > 0 then (case getitem tx ''isError'' of Inl e \<Rightarrow> Inl e | Inr f \<Rightarrow> Inr (f \<noteq> ''1''))
          else Inr False)"

text \<open>
  \<^verbatim>\<open>
  for tx in data["result"]:
      if int(tx["value"]) > 0 and tx["isError"] != "1":
          transaction_queue.put(tx)
  \<close>
  The queue is the list of the records put on it, oldest first. An exception leaves
  what was put before it on the queue.
\<close>

fun enqueue_records :: "raw list \<Rightarrow> raw list \<Rightarrow> (py_error + unit) \<times> raw list" where
  "enqueue_records [] q = (Inr (), q)"
| "enqueue_records (tx # txs) q =
     (case keeps tx of
        Inl e \<Rightarrow> (Inl e, q)
      | Inr k \<Rightarrow> enqueue_records txs (if k then q @ [tx] else q))"

text \<open>Iterating over a string yields one-character strings, and indexing one of them
  with \<^verbatim>\<open>"value"\<close> raises \<^verbatim>\<open>TypeError\<close>.\<close>

fun enqueue_result :: "api_result \<Rightarrow> raw list \<Rightarrow> (py_error + unit) \<times> raw list" where
  "enqueue_result (ResultList rs) q = enqueue_records rs q"
| "enqueue_result (ResultStr s) q = (if s = [] then (Inr (), q) else (Inl TypeError, q))"

text \<open>
  The overflow loop of \<^verbatim>\<open>call_api_and_produce\<close>:
  \<^verbatim>\<open>
  block_attempt_index = 0
  while len(data.get("result", [])) >= RECORD_RETRIEVAL_LIMIT:
      block_window_amount = BLOCK_ATTEMPTS[block_attempt_index] \
          if block_attempt_index < len(BLOCK_ATTEMPTS) else 20
      tentative_end_block = min(current_block + block_window_amount, ending_block)
      data = __call_etherscan(address, thread_id, startblock=current_block,
                              endblock=tentative_end_block)
      block_attempt_index += 1
  \<close>
  The first argument is fuel: one unit per test of the loop condition, and \<open>None\<close>
  when it runs out. The loop returns the window size, the tentative end block and
  the data it ends with.
\<close>

fun overflow_loop ::
  "nat \<Rightarrow> config \<Rightarrow> api \<Rightarrow> nat option \<Rightarrow> int \<Rightarrow> int \<Rightarrow> nat \<Rightarrow> int \<Rightarrow> int \<Rightarrow> api_result \<Rightarrow> net
   \<Rightarrow> ((py_error + int \<times> int \<times> api_result) \<times> net) option" where
  "overflow_loop 0 cfg api thread_id current_block ending_block block_attempt_index
     block_window_amount tentative_end_block data s = None"
| "overflow_loop (Suc fuel) cfg api thread_id current_block ending_block block_attempt_index
     block_window_amount tentative_end_block data s =
     (if int (py_len data) \<ge> RECORD_RETRIEVAL_LIMIT cfg then
        (let window = (if block_attempt_index < length (BLOCK_ATTEMPTS cfg)
                       then BLOCK_ATTEMPTS cfg ! block_attempt_index else 20);
             tentative = min (current_block + window) ending_block
         in case call_etherscan api thread_id current_block tentative 4 s of
              (Inl e, s') \<Rightarrow> Some (Inl e, s')
            | (Inr data', s') \<Rightarrow>
                overflow_loop fuel cfg api thread_id current_block ending_block
                  (Suc block_attempt_index) window tentative data' s')
      else Some (Inr (block_window_amount, tentative_end_block, data), s))"

text \<open>
  The state of a producer: its cursor, its window size, the shared queue and the
  client's state.
\<close>

record producer =
  current_block :: int
  block_window_amount :: int
  transaction_queue :: "raw list"
  client :: net

text \<open>
  The main loop of \<^verbatim>\<open>call_api_and_produce\<close> (lines 130 to 179 of
  \<^verbatim>\<open>ingest.py\<close>), with fuel: one unit per test of \<^verbatim>\<open>current_block <= ending_block\<close>.
  \<^verbatim>\<open>
  while current_block <= ending_block:
      tentative_end_block = min(current_block + BASE_BLOCK_ATTEMPT, ending_block)
      data = __call_etherscan(address, thread_id, startblock=current_block,
                              endblock=tentative_end_block)
      if not data["result"]:
          current_block = tentative_end_block + 1
          continue
      (the overflow loop)
      for tx in data["result"]: (the filter)
      if data["result"]:
          current_block = tentative_end_block + 1
          block_window_amount = BASE_BLOCK_ATTEMPT
  \<close>
  The result is \<open>None\<close> when the fuel runs out, and otherwise the exception raised
  or a normal return, with the state reached.
\<close>

fun produce_loop ::
  "nat \<Rightarrow> config \<Rightarrow> api \<Rightarrow> nat option \<Rightarrow> int \<Rightarrow> producer \<Rightarrow> ((py_error + unit) \<times> producer) option" where
  "produce_loop 0 cfg api thread_id ending_block p = None"
| "produce_loop (Suc fuel) cfg api thread_id ending_block p =
     (if current_block p \<le> ending_block then
        (let tentative_end_block = min (current_block p + BASE_BLOCK_ATTEMPT cfg) ending_block
         in case call_etherscan api thread_id (current_block p) tentative_end_block 4 (client p) of
              (Inl e, s1) \<Rightarrow> Some (Inl e, p\<lparr>client := s1\<rparr>)
            | (Inr data, s1) \<Rightarrow>
                if falsy data then
                  produce_loop fuel cfg api thread_id ending_block
                    (p\<lparr>current_block := tentative_end_block + 1, client := s1\<rparr>)
                else
                  (case overflow_loop fuel cfg api thread_id (current_block p) ending_block 0
                          (block_window_amount p) tentative_end_block data s1 of
                     None \<Rightarrow> None
                   | Some (Inl e, s2) \<Rightarrow> Some (Inl e, p\<lparr>client := s2\<rparr>)
                   | Some (Inr (window, tentative, data'), s2) \<Rightarrow>
                       (case enqueue_result data' (transaction_queue p) of
                          (Inl e, q) \<Rightarrow>
                            Some (Inl e, p\<lparr>block_window_amount := window,
                                            transaction_queue := q, client := s2\<rparr>)
                        | (Inr u, q) \<Rightarrow>
                            if \<not> falsy data' then
                              produce_loop fuel cfg api thread_id ending_block
                                (p\<lparr>current_block := tentative + 1,
                                   block_window_amount := BASE_BLOCK_ATTEMPT cfg,
                                   transaction_queue := q, client := s2\<rparr>)
                            else
                              produce_loop fuel cfg api thread_id ending_block
                                (p\<lparr>block_window_amount := window,
                                   transaction_queue := q, client := s2\<rparr>))))
      else Some (Inr (), p))"

text \<open>
  \<^verbatim>\<open>call_api_and_produce(address, starting_block, ending_block, transaction_queue,
  thread_id)\<close>: the loop from \<^verbatim>\<open>current_block = starting_block\<close> and
  \<^verbatim>\<open>block_window_amount = BASE_BLOCK_ATTEMPT if not DEV_MODE else DEV_STEP\<close>. An
  exception is logged and raised again.
\<close>

definition call_api_and_produce ::
  "nat \<Rightarrow> config \<Rightarrow> api \<Rightarrow> int \<Rightarrow> int \<Rightarrow> raw list \<Rightarrow> nat option \<Rightarrow> net
   \<Rightarrow> ((py_error + unit) \<times> producer) option" where
  "call_api_and_produce fuel cfg api starting_block ending_block queue thread_id s =
     produce_loop fuel cfg api thread_id ending_block
       \<lparr>current_block = starting_block,
        block_window_amount = (if \<not> DEV_MODE cfg then BASE_BLOCK_ATTEMPT cfg else DEV_STEP cfg),
        transaction_queue = queue,
        client = s\<rparr>"

subsection \<open>The relational store\<close>

text \<open>
  \<^verbatim>\<open>src/assignment/models.py\<close> and \<^verbatim>\<open>src/assignment/db.py\<close> are not among the
  sources. The two tables are lists of rows in insertion order. A Transaction
  entity in a consumer's batch has the same fields as a row; its address ids are
  \<open>None\<close> where the resolver returned \<^verbatim>\<open>None\<close>.
\<close>

record address_row =
  addr_id :: nat
  address :: string

record transaction_row =
  block_number :: int
  time_stamp :: int
  hash :: string
  from_address_id :: "nat option"
  to_address_id :: "nat option"
  tx_value :: int
  gas :: int
  gas_used :: int
  is_error :: int

text \<open>
  The store holds the committed rows. \<open>faults\<close> is the environment's part: one
  entry for each coming database statement, \<open>True\<close> when that statement fails with
  an error that is not an \<^verbatim>\<open>IntegrityError\<close> (a lost connection, say); past the end
  of the list no statement fails so.
\<close>

record db =
  addresses :: "address_row list"
  transactions :: "transaction_row list"
  faults :: "bool list"

definition statement :: "db \<Rightarrow> bool \<times> db" where
  "statement d = (case faults d of [] \<Rightarrow> (False, d) | f # fs \<Rightarrow> (f, d\<lparr>faults := fs\<rparr>))"

text \<open>\<^verbatim>\<open>session.query(Address).filter_by(address=a)\<close>: the rows with that string.\<close>

definition select_address :: "db \<Rightarrow> string \<Rightarrow> address_row list" where
  "select_address d a = filter (\<lambda>r. address r = a) (addresses d)"

text \<open>The generated surrogate id of a new address row: one more than every id in
  the table.\<close>

definition fresh_id :: "address_row list \<Rightarrow> nat" where
  "fresh_id rows = Suc (fold max (map addr_id rows) 0)"

text \<open>
  Modelled from the spec: the declaration of the table \<^verbatim>\<open>addresses\<close> (the class
  \<^verbatim>\<open>Address\<close> of \<^verbatim>\<open>models.py\<close>) is missing; the spec gives it as
  \<^verbatim>\<open>addresses(id PK, address UNIQUE)\<close> with a generated surrogate id.
  \<^verbatim>\<open>session.add(Address(address=a)); session.commit()\<close> inserts a row with a fresh
  id, or raises \<^verbatim>\<open>IntegrityError\<close> and changes nothing when a row with that string
  exists.
\<close>

definition insert_address :: "db \<Rightarrow> string \<Rightarrow> py_error + nat \<times> db" where
  "insert_address d a =
     (if select_address d a \<noteq> [] then Inl (IntegrityError a)
      else Inr (fresh_id (addresses d),
                d\<lparr>addresses := addresses d @ [\<lparr>addr_id = fresh_id (addresses d), address = a\<rparr>]\<rparr>))"

text \<open>
  \<open>first_conflict seen batch\<close> is the hash of the first entity of the batch, in
  order, whose hash is among the hashes \<open>seen\<close> or those of the entities before it.
\<close>

fun first_conflict :: "string list \<Rightarrow> transaction_row list \<Rightarrow> string option" where
  "first_conflict seen [] = None"
| "first_conflict seen (t # ts) =
     (if hash t \<in> set seen then Some (hash t) else first_conflict (hash t # seen) ts)"

text \<open>
  Modelled from the spec: the declaration of the table \<^verbatim>\<open>transactions\<close> (the class
  \<^verbatim>\<open>Transaction\<close> of \<^verbatim>\<open>models.py\<close>) is missing; the spec gives it as
  \<^verbatim>\<open>transactions(..., hash UNIQUE)\<close>, the unique constraint on \<^verbatim>\<open>hash\<close> being the
  only constraint it states.
  \<^verbatim>\<open>session.bulk_save_objects(batch); session.commit()\<close> inserts the whole batch in
  one transaction, or raises \<^verbatim>\<open>IntegrityError\<close> for the first conflicting hash and
  persists nothing.
\<close>

definition bulk_save_objects :: "db \<Rightarrow> transaction_row list \<Rightarrow> (py_error + unit) \<times> db" where
  "bulk_save_objects d batch =
     (let (failed, d1) = statement d in
      if failed then (Inl OperationalError, d1)
      else (case first_conflict (map hash (transactions d1)) batch of
              Some h \<Rightarrow> (Inl (IntegrityError h), d1)
            | None \<Rightarrow> (Inr (), d1\<lparr>transactions := transactions d1 @ batch\<rparr>)))"

subsection \<open>The identity resolver\<close>

text \<open>
  \<^verbatim>\<open>
  def __get_or_create_address(address):
      session = Session()
      try:
          addr_obj = session.query(Address).filter_by(address=address).one_or_none()
          if not addr_obj:
              addr_obj = Address(address=address)
              session.add(addr_obj)
              session.commit()
          return addr_obj.id
      except IntegrityError:
          session.rollback()
          addr_obj = session.query(Address).filter_by(address=address).one()
          return addr_obj.id
      except Exception as e:
          logger.error(f"An error occurred: {e}")
          session.rollback()
          return None
      finally:
          session.close()
  \<close>
  The function returns an id, returns \<^verbatim>\<open>None\<close>, or raises: an exception raised
  inside the \<^verbatim>\<open>except IntegrityError\<close> handler is not caught by the clause after
  it. \<^verbatim>\<open>one_or_none()\<close> raises \<^verbatim>\<open>MultipleResultsFound\<close> on more than one row,
  \<^verbatim>\<open>one()\<close> raises it too, and \<^verbatim>\<open>NoResultFound\<close> on none.
\<close>

definition get_or_create_address :: "db \<Rightarrow> string \<Rightarrow> (py_error + nat option) \<times> db" where
  "get_or_create_address d a =
     (let (failed1, d1) = statement d in
      if failed1 then (Inr None, d1)
      else (case select_address d1 a of
              [r] \<Rightarrow> (Inr (Some (addr_id r)), d1)
            | r # r' # rs \<Rightarrow> (Inr None, d1)
            | [] \<Rightarrow>
                (let (failed2, d2) = statement d1 in
                 if failed2 then (Inr None, d2)
                 else (case insert_address d2 a of
                         Inr (i, d3) \<Rightarrow> (Inr (Some i), d3)
                       | Inl e \<Rightarrow>
                           (let (failed3, d3) = statement d2 in
                            if failed3 then (Inl OperationalError, d3)
                            else (case select_address d3 a of
                                    [] \<Rightarrow> (Inl NoResultFound, d3)
                                  | [r] \<Rightarrow> (Inr (Some (addr_id r)), d3)
                                  | r # r' # rs \<Rightarrow> (Inl MultipleResultsFound, d3)))))))"

text \<open>
  Two consumers resolve addresses against the same store. For their interleavings
  the function is cut at its database statements: the first query, the insert with
  its commit, and the query of the \<^verbatim>\<open>IntegrityError\<close> handler. A worker is at one of
  these statements, or has returned, or has raised. \<open>resolver_step\<close> runs the next
  statement of a worker; the store serialises the statements.
\<close>

datatype resolver_pc = At_query | At_insert | At_reread | Returned "nat option" | Raised py_error

fun resolver_step :: "string \<Rightarrow> resolver_pc \<times> db \<Rightarrow> resolver_pc \<times> db" where
  "resolver_step a (At_query, d) =
     (let (failed, d1) = statement d in
      if failed then (Returned None, d1)
      else (case select_address d1 a of
              [] \<Rightarrow> (At_insert, d1)
            | [r] \<Rightarrow> (Returned (Some (addr_id r)), d1)
            | r # r' # rs \<Rightarrow> (Returned None, d1)))"
| "resolver_step a (At_insert, d) =
     (let (failed, d1) = statement d in
      if failed then (Returned None, d1)
      else (case insert_address d1 a of
              Inr (i, d2) \<Rightarrow> (Returned (Some i), d2)
            | Inl e \<Rightarrow> (At_reread, d1)))"
| "resolver_step a (At_reread, d) =
     (let (failed, d1) = statement d in
      if failed then (Raised OperationalError, d1)
      else (case select_address d1 a of
              [] \<Rightarrow> (Raised NoResultFound, d1)
            | [r] \<Rightarrow> (Returned (Some (addr_id r)), d1)
            | r # r' # rs \<Rightarrow> (Raised MultipleResultsFound, d1)))"
| "resolver_step a (Returned r, d) = (Returned r, d)"
| "resolver_step a (Raised e, d) = (Raised e, d)"

text \<open>
  Two workers resolving the same string under a schedule: each entry says which
  worker runs its next statement (\<open>True\<close> the first, \<open>False\<close> the second); a
  worker that has returned or raised stays as it is.
\<close>

fun run_two :: "string \<Rightarrow> bool list \<Rightarrow> resolver_pc \<times> resolver_pc \<times> db \<Rightarrow> resolver_pc \<times> resolver_pc \<times> db" where
  "run_two a [] c = c"
| "run_two a (w # ws) (p1, p2, d) =
     (if w then (let (p1', d') = resolver_step a (p1, d) in run_two a ws (p1', p2, d'))
      else (let (p2', d') = resolver_step a (p2, d) in run_two a ws (p1, p2', d')))"

subsection \<open>The batch flush\<close>

text \<open>
  \<^verbatim>\<open>
  def __save(session, transactions_to_batch, thread_id):
      try:
          session.bulk_save_objects(transactions_to_batch)
          session.commit()
          transactions_to_batch.clear()
      except IntegrityError as e:
          session.rollback()
          match = re.search(r'\(hash\)=\((.*?)\)', str(e))
          if match:
              conflicting_hash = match.group(1)
              (log the entities of the batch with that hash)
              existing_transaction = session.query(Transaction) \
                  .filter_by(hash=conflicting_hash).first()
              (log it)
      except Exception as e:
          (log)
          session.rollback()
  \<close>
  The result is the exception that leaves the function, if any, the store, and the
  caller's batch list, which only the successful path clears. The query of the
  handler is a database statement and can fail; its failure leaves the function.
  What the function logs is left out.
\<close>

definition save :: "db \<Rightarrow> transaction_row list \<Rightarrow> (py_error + unit) \<times> db \<times> transaction_row list" where
  "save d batch =
     (case bulk_save_objects d batch of
        (Inr u, d1) \<Rightarrow> (Inr (), d1, [])
      | (Inl e, d1) \<Rightarrow>
          if is_integrity_error e then
            (let (failed, d2) = statement d1 in
             if failed then (Inl OperationalError, d2, batch) else (Inr (), d2, batch))
          else (Inr (), d1, batch))"

subsection \<open>The consumer\<close>

text \<open>
  \<^verbatim>\<open>datetime.fromtimestamp(t, timezone.utc)\<close> is defined for the years 1 to 9999.
  Outside, as CPython does on Linux with a 64-bit \<^verbatim>\<open>time_t\<close>: \<^verbatim>\<open>OverflowError\<close> when
  \<open>t\<close> does not fit \<^verbatim>\<open>time_t\<close>, \<^verbatim>\<open>OSError\<close> when \<^verbatim>\<open>gmtime\<close> cannot hold the year,
  and \<^verbatim>\<open>ValueError\<close> ("year ... is out of range") otherwise. The timestamp is kept as its number
  of seconds.
\<close>

definition fromtimestamp :: "int \<Rightarrow> py_error + int" where
  "fromtimestamp t =
     (if - 62135596800 \<le> t \<and> t \<le> 253402300799 then Inr t
      else if t < - 9223372036854775808 \<or> 9223372036854775807 < t then Inl OverflowError
      else if - 67768040609740800 \<le> t \<and> t \<le> 67768036191676799 then Inl ValueError
      else Inl OSError)"

text \<open>
  \<^verbatim>\<open>
  Transaction(block_number=int(transaction["blockNumber"]),
              time_stamp=datetime.fromtimestamp(int(transaction["timeStamp"]), timezone.utc),
              hash=transaction["hash"],
              from_address_id=from_address_id, to_address_id=to_address_id,
              value=int(transaction["value"]), gas=int(transaction["gas"]),
              gas_used=int(transaction["gasUsed"]), is_error=int(transaction["isError"]))
  \<close>
  The arguments are evaluated in this order; the first that raises ends it.
\<close>

definition build_transaction :: "raw \<Rightarrow> nat option \<Rightarrow> nat option \<Rightarrow> py_error + transaction_row" where
  "build_transaction tx from_id to_id =
     (case int_field tx ''blockNumber'' of Inl e \<Rightarrow> Inl e | Inr bn \<Rightarrow>
      case int_field tx ''timeStamp'' of Inl e \<Rightarrow> Inl e | Inr secs \<Rightarrow>
      case fromtimestamp secs of Inl e \<Rightarrow> Inl e | Inr ts \<Rightarrow>
      case getitem tx ''hash'' of Inl e \<Rightarrow> Inl e | Inr h \<Rightarrow>
      case int_field tx ''value'' of Inl e \<Rightarrow> Inl e | Inr v \<Rightarrow>
      case int_field tx ''gas'' of Inl e \<Rightarrow> Inl e | Inr g \<Rightarrow>
      case int_field tx ''gasUsed'' of Inl e \<Rightarrow> Inl e | Inr gu \<Rightarrow>
      case int_field tx ''isError'' of Inl e \<Rightarrow> Inl e | Inr ie \<Rightarrow>
        Inr \<lparr>block_number = bn, time_stamp = ts, hash = h, from_address_id = from_id,
             to_address_id = to_id, tx_value = v, gas = g, gas_used = gu, is_error = ie\<rparr>)"

text \<open>
  The flush of a full batch, lines 215 to 222:
  \<^verbatim>\<open>
  __save(session, transactions_to_batch, thread_id)
  transactions_to_batch.clear()
  __log_with_thread_id(f"Batch saved. ... {session.query(Transaction).count()}", ...)
  \<close>
  The count in the log line is a database statement.
\<close>

definition flush_full :: "db \<Rightarrow> transaction_row list \<Rightarrow> (py_error + unit) \<times> db \<times> transaction_row list" where
  "flush_full d batch =
     (case save d batch of
        (Inl e, d1, b) \<Rightarrow> (Inl e, d1, b)
      | (Inr u, d1, b) \<Rightarrow>
          (let (failed, d2) = statement d1 in
           if failed then (Inl OperationalError, d2, []) else (Inr (), d2, [])))"

text \<open>
  The body of the consumer's loop for a dequeued record, lines 200 to 222: resolve
  both addresses, build the entity, append it to the batch, flush a full batch.
\<close>

definition consume_record ::
  "config \<Rightarrow> db \<Rightarrow> transaction_row list \<Rightarrow> raw \<Rightarrow> (py_error + unit) \<times> db \<times> transaction_row list" where
  "consume_record cfg d batch tx =
     (case getitem tx ''from'' of Inl e \<Rightarrow> (Inl e, d, batch) | Inr sender \<Rightarrow>
      case get_or_create_address d sender of (Inl e, d1) \<Rightarrow> (Inl e, d1, batch) | (Inr from_id, d1) \<Rightarrow>
      case getitem tx ''to'' of Inl e \<Rightarrow> (Inl e, d1, batch) | Inr receiver \<Rightarrow>
      case get_or_create_address d1 receiver of (Inl e, d2) \<Rightarrow> (Inl e, d2, batch) | (Inr to_id, d2) \<Rightarrow>
      case build_transaction tx from_id to_id of Inl e \<Rightarrow> (Inl e, d2, batch) | Inr t \<Rightarrow>
        if int (length (batch @ [t])) \<ge> SAVE_BATCH_LIMIT cfg then flush_full d2 (batch @ [t])
        else (Inr (), d2, batch @ [t]))"

text \<open>
  What one iteration of the consumer's loop meets, its condition
  \<^verbatim>\<open>not producers_all_done_event.is_set() or not transaction_queue.empty()\<close> being
  true: \<^verbatim>\<open>transaction_queue.get(timeout=5)\<close> returns a record, or raises
  \<^verbatim>\<open>queue.Empty\<close>, and then \<open>Timeout b\<close> carries what
  \<^verbatim>\<open>producers_all_done_event.is_set()\<close> answers in the handler. The end of the list
  is the loop's condition found false.
  \<^verbatim>\<open>
  while not producers_all_done_event.is_set() or not transaction_queue.empty():
      try:
          transaction = transaction_queue.get(timeout=5)
          (the body)
      except queue.Empty:
          if producers_all_done_event.is_set():
              break
          continue
  \<close>
\<close>

datatype queue_event = Got raw | Timeout bool

fun consume_loop ::
  "config \<Rightarrow> db \<Rightarrow> transaction_row list \<Rightarrow> queue_event list
   \<Rightarrow> (py_error + unit) \<times> db \<times> transaction_row list" where
  "consume_loop cfg d batch [] = (Inr (), d, batch)"
| "consume_loop cfg d batch (Timeout is_set # evs) =
     (if is_set then (Inr (), d, batch) else consume_loop cfg d batch evs)"
| "consume_loop cfg d batch (Got tx # evs) =
     (case consume_record cfg d batch tx of
        (Inl e, d1, b) \<Rightarrow> (Inl e, d1, b)
      | (Inr u, d1, b) \<Rightarrow> consume_loop cfg d1 b evs)"

text \<open>
  \<^verbatim>\<open>
  def consume(transaction_queue, producers_all_done_event, thread_id):
      session = Session()
      transactions_to_batch = []
      try:
          (the loop)
          if transactions_to_batch:
              __save(session, transactions_to_batch, thread_id)
      except Exception as e:
          __log_with_thread_id(f"Consumer shutting down due to error: {e}", thread_id)
      finally:
          session.close()
  \<close>
  The result of a run: the store, whether the session was closed, the exception
  the \<^verbatim>\<open>except\<close> clause caught and logged, and the batch still in memory when the
  function ends, which is lost with it. \<open>Inl\<close> would be an exception that leaves
  the function.
\<close>

record consumer_result =
  final_db :: db
  session_closed :: bool
  caught :: "py_error option"
  lost_batch :: "transaction_row list"

definition consume :: "config \<Rightarrow> db \<Rightarrow> queue_event list \<Rightarrow> py_error + consumer_result" where
  "consume cfg d evs =
     (case consume_loop cfg d [] evs of
        (Inl e, d1, batch) \<Rightarrow>
          Inr \<lparr>final_db = d1, session_closed = True, caught = Some e, lost_batch = batch\<rparr>
      | (Inr u, d1, batch) \<Rightarrow>
          if batch \<noteq> [] then
            (case save d1 batch of
               (Inl e, d2, b) \<Rightarrow>
                 Inr \<lparr>final_db = d2, session_closed = True, caught = Some e, lost_batch = b\<rparr>
             | (Inr u', d2, b) \<Rightarrow>
                 Inr \<lparr>final_db = d2, session_closed = True, caught = None, lost_batch = b\<rparr>)
          else Inr \<lparr>final_db = d1, session_closed = True, caught = None, lost_batch = batch\<rparr>)"

subsection \<open>Predicates and inputs used in the statements\<close>

text \<open>The \<open>n\<close>-th request answers with the application-level rate-limit body.\<close>

definition rate_limited :: "api \<Rightarrow> nat \<Rightarrow> int \<Rightarrow> int \<Rightarrow> bool" where
  "rate_limited api n startblock endblock =
     (api n startblock endblock = Body (Some (ResultStr ''Max rate limit reached'')))"



text \<open>
  A small configuration (page limit 2, base window 100, attempt sequence 50, 20)
  and a ledger with one qualifying transfer in block 160 and one in block 190;
  \<open>sparse_api\<close> answers every request with the records of its window.
\<close>

definition example_cfg :: config where
  "example_cfg =
     \<lparr>RECORD_RETRIEVAL_LIMIT = 2, BASE_BLOCK_ATTEMPT = 100, BLOCK_ATTEMPTS = [50, 20],
      SAVE_BATCH_LIMIT = 3, DEV_MODE = False, DEV_STEP = 10\<rparr>"

definition transfer :: "string \<Rightarrow> string \<Rightarrow> string \<Rightarrow> string \<Rightarrow> string \<Rightarrow> raw" where
  "transfer block h sender receiver amount =
     [(''blockNumber'', block), (''timeStamp'', ''1700000000''), (''hash'', h),
      (''from'', sender), (''to'', receiver), (''value'', amount),
      (''gas'', ''21000''), (''gasUsed'', ''20000''), (''isError'', ''0'')]"

definition tx_160 :: raw where
  "tx_160 = transfer ''160'' ''0xh1'' ''0xa'' ''0xb'' ''5''"

definition tx_190 :: raw where
  "tx_190 = transfer ''190'' ''0xh2'' ''0xb'' ''0xc'' ''7''"

definition sparse_api :: api where
  "sparse_api n startblock endblock =
     Body (Some (ResultList
       ((if startblock \<le> 160 \<and> 160 \<le> endblock then [tx_160] else [])
        @ (if startblock \<le> 190 \<and> 190 \<le> endblock then [tx_190] else []))))"

definition net0 :: net where
  "net0 = \<lparr>calls = 0, sem_acquired = 0, sem_released = 0, error_log = []\<rparr>"

text \<open>
  For the resolver: the result of \<^verbatim>\<open>__get_or_create_address\<close> as the final state
  of a worker; the number of statements a worker can still run; and what a
  worker's position says about the store (at the handler's query the row exists; a
  returned id is the id of a row with the string).
\<close>

fun lift_result :: "(py_error + nat option) \<times> db \<Rightarrow> resolver_pc \<times> db" where
  "lift_result (Inr r, d) = (Returned r, d)"
| "lift_result (Inl e, d) = (Raised e, d)"

fun rank :: "resolver_pc \<Rightarrow> nat" where
  "rank At_query = 3" | "rank At_insert = 2" | "rank At_reread = 1" | "rank pc = 0"

definition resolved :: "string \<Rightarrow> db \<Rightarrow> resolver_pc \<Rightarrow> bool" where
  "resolved a d pc =
     (case pc of
        At_query \<Rightarrow> True
      | At_insert \<Rightarrow> True
      | At_reread \<Rightarrow> select_address d a \<noteq> []
      | Returned r \<Rightarrow> (\<exists>i. r = Some i \<and> \<lparr>addr_id = i, address = a\<rparr> \<in> set (addresses d))
      | Raised e \<Rightarrow> False)"

text \<open>An empty store on which no statement fails.\<close>

definition db0 :: db where "db0 = \<lparr>addresses = [], transactions = [], faults = []\<rparr>"

text \<open>
  For the consumer: \<open>persists_more d d'\<close> says that the store \<open>d'\<close> holds the
  transaction rows of \<open>d\<close> and perhaps more after them, and that its hashes are
  pairwise different if those of \<open>d\<close> are. A record has a non-integer field when
  \<^verbatim>\<open>int\<close> raises \<^verbatim>\<open>ValueError\<close> on one of the six fields the consumer parses.
  \<open>tx_malformed\<close> is such a record; \<open>tx_160_again\<close> is a second transfer with the
  hash of \<open>tx_160\<close>.
\<close>

definition persists_more :: "db \<Rightarrow> db \<Rightarrow> bool" where
  "persists_more d d' =
     ((\<exists>new. transactions d' = transactions d @ new)
      \<and> (distinct (map hash (transactions d)) \<longrightarrow> distinct (map hash (transactions d'))))"

definition has_non_integer_field :: "raw \<Rightarrow> bool" where
  "has_non_integer_field tx =
     (\<exists>k\<in>set [''blockNumber'', ''timeStamp'', ''value'', ''gas'', ''gasUsed'', ''isError''].
        int_field tx k = Inl ValueError)"

definition tx_malformed :: raw where
  "tx_malformed = transfer ''abc'' ''0xh9'' ''0xa'' ''0xb'' ''1''"

definition tx_160_again :: raw where
  "tx_160_again = transfer ''160'' ''0xh1'' ''0xa'' ''0xc'' ''8''"

text \<open>The entity the consumer builds from \<open>tx_160\<close>, with the ids of its addresses.\<close>

definition entity_160 :: "nat option \<Rightarrow> nat option \<Rightarrow> transaction_row" where
  "entity_160 from_id to_id =
     \<lparr>block_number = 160, time_stamp = 1700000000, hash = ''0xh1'', from_address_id = from_id,
      to_address_id = to_id, tx_value = 5, gas = 21000, gas_used = 20000, is_error = 0\<rparr>"

text \<open>A store in which the transfer of \<open>tx_160\<close> is already persisted.\<close>

definition db1 :: db where
  "db1 = \<lparr>addresses = [\<lparr>addr_id = 1, address = ''0xa''\<rparr>, \<lparr>addr_id = 2, address = ''0xb''\<rparr>],
          transactions = [entity_160 (Some 1) (Some 2)], faults = []\<rparr>"




text \<open>Two stubs of the API: one that is rate limited twice and then fails in the
  transport, one that is always rate limited. And two records the filter rejects.\<close>

definition flaky_api :: api where
  "flaky_api n startblock endblock =
     (if n < 2 then Body (Some (ResultStr ''Max rate limit reached''))
      else if n = 2 then Failure TransportError
      else Body (Some (ResultList [])))"

definition limited_api :: api where
  "limited_api n startblock endblock = Body (Some (ResultStr ''Max rate limit reached''))"




section \<open>Properties\<close>

subsection \<open>Range partitioner\<close>

lemma block_ranges_stop: "ending < current \<Longrightarrow> block_ranges current ending step = Some []"
  by (subst block_ranges.simps) simp

lemma block_ranges_unfold:
  "current \<le> ending \<Longrightarrow>
   block_ranges current ending step =
     Option.bind (block_ranges (current + step) ending step)
       (\<lambda>rest. Some ((current, min (current + step - 1) ending) # rest))"
  by (subst block_ranges.simps) simp

lemma upto_split_at:
  assumes "i \<le> j + 1" "j \<le> k"
  shows "[i..k] = [i..j] @ [j + 1..k]"
proof (cases "i \<le> j")
  case True
  then show ?thesis using assms upto_split2 [of i j k] by simp
next
  case False
  then have "i = j + 1" using assms by simp
  then show ?thesis by simp
qed

lemma block_ranges_total_aux:
  "1 \<le> step \<Longrightarrow> nat (ending - current + 1) \<le> n \<Longrightarrow>
   \<exists>rs. block_ranges current ending step = Some rs
      \<and> covered rs = [current..ending]
      \<and> rs = map (\<lambda>k. (current + int k * step, min (current + int k * step + step - 1) ending))
               [0..<length rs]
      \<and> (current \<le> ending \<longrightarrow> int (length rs) = (ending - current) div step + 1)"
proof (induction n arbitrary: current)
  case 0
  then have "ending < current" by simp
  then show ?case by (simp add: block_ranges_stop covered_def)
next
  case (Suc n)
  show ?case
  proof (cases "current \<le> ending")
    case False
    then show ?thesis by (simp add: block_ranges_stop covered_def)
  next
    case True
    have "nat (ending - (current + step) + 1) \<le> n"
      using Suc.prems True by simp
    from Suc.IH [OF Suc.prems(1) this]
    obtain rs where rs: "block_ranges (current + step) ending step = Some rs"
      and cov: "covered rs = [current + step..ending]"
      and shape: "rs = map (\<lambda>k. (current + step + int k * step,
                                  min (current + step + int k * step + step - 1) ending))
                        [0..<length rs]"
      and len: "current + step \<le> ending \<longrightarrow> int (length rs) = (ending - (current + step)) div step + 1"
      by blast
    let ?r = "(current, min (current + step - 1) ending)"
    have res: "block_ranges current ending step = Some (?r # rs)"
      using True rs by (simp add: block_ranges_unfold)
    have cov': "covered (?r # rs) = [current..ending]"
    proof (cases "current + step - 1 \<le> ending")
      case True
      have "[current..ending] = [current..current + step - 1] @ [current + step - 1 + 1..ending]"
        using Suc.prems(1) True by (intro upto_split_at) simp_all
      then show ?thesis using True cov by (simp add: covered_def blocks_of_def)
    next
      case False
      then have "[current + step..ending] = []" by simp
      then show ?thesis using False cov by (simp add: covered_def blocks_of_def)
    qed
    have shape': "?r # rs = map (\<lambda>k. (current + int k * step,
                                  min (current + int k * step + step - 1) ending))
                        [0..<length (?r # rs)]"
    proof -
      have "map (\<lambda>k. (current + int k * step, min (current + int k * step + step - 1) ending))
              [0..<Suc (length rs)]
            = ?r # map (\<lambda>k. (current + int (Suc k) * step,
                                 min (current + int (Suc k) * step + step - 1) ending))
                     [0..<length rs]"
        by (simp add: upt_conv_Cons map_Suc_upt [symmetric] del: upt_Suc)
      also have "map (\<lambda>k. (current + int (Suc k) * step,
                                 min (current + int (Suc k) * step + step - 1) ending))
                     [0..<length rs]
                 = map (\<lambda>k. (current + step + int k * step,
                                  min (current + step + int k * step + step - 1) ending))
                        [0..<length rs]"
        by (simp add: algebra_simps)
      also have "\<dots> = rs"
        using shape by simp
      finally show ?thesis by simp
    qed
    have len': "int (length (?r # rs)) = (ending - current) div step + 1"
    proof (cases "current + step \<le> ending")
      case True
      have "(ending - current) div step = (ending - (current + step) + step) div step" by simp
      also have "\<dots> = (ending - (current + step)) div step + 1"
        using Suc.prems(1) by (subst div_add_self2) simp_all
      finally show ?thesis using len True by simp
    next
      case False
      then have "rs = []" using rs by (simp add: block_ranges_stop)
      moreover have "(ending - current) div step = 0"
        using False \<open>current \<le> ending\<close> by (intro div_pos_pos_trivial) simp_all
      ultimately show ?thesis by simp
    qed
    show ?thesis
    proof (intro exI conjI impI)
      show "block_ranges current ending step = Some (?r # rs)" by (rule res)
      show "covered (?r # rs) = [current..ending]" by (rule cov')
      show "?r # rs = map (\<lambda>k. (current + int k * step,
                                  min (current + int k * step + step - 1) ending))
                        [0..<length (?r # rs)]" by (rule shape')
      show "int (length (?r # rs)) = (ending - current) div step + 1" by (rule len')
    qed
  qed
qed

text \<open>
  C3. For \<open>start \<le> end\<close> and \<open>step \<ge> 1\<close> the partitioner returns; the \<open>k\<close>-th
  pair it yields is \<open>(start + k * step, min (start + k * step + step - 1) end)\<close>, the
  cursor advancing by \<open>step\<close> until it exceeds \<open>end\<close>; and the blocks of the yielded
  ranges, concatenated in order, are the list \<open>[start..end]\<close>: every block once, no
  gap, no overlap.
\<close>

theorem block_ranges_cover:
  assumes "start \<le> ending" and "1 \<le> step"
  shows "\<exists>rs. block_ranges start ending step = Some rs
      \<and> rs = map (\<lambda>k. (start + int k * step, min (start + int k * step + step - 1) ending))
               [0..<length rs]
      \<and> int (length rs) = (ending - start) div step + 1
      \<and> covered rs = [start..ending]"
  using block_ranges_total_aux [OF assms(2) order_refl, where ending = ending and current = start]
    assms(1) by blast

theorem block_ranges_cover_witness:
  "block_ranges 100 250 100 = Some [(100, 199), (200, 250)]
   \<and> covered [(100, 199), (200, 250)] = [100..250]"
proof -
  have h1: "(100::int) \<le> 250" and h2: "(1::int) \<le> 100" by simp_all
  from block_ranges_cover [OF h1 h2]
  obtain rs where rs: "block_ranges 100 250 100 = Some rs"
    and shape: "rs = map (\<lambda>k. (100 + int k * 100, min (100 + int k * 100 + 100 - 1) 250))
                       [0..<length rs]"
    and len: "int (length rs) = (250 - 100) div 100 + 1"
    and cov: "covered rs = [100..250]"
    by blast
  from len have "length rs = 2" by simp
  with shape have "rs = [(100, 199), (200, 250)]"
    by (simp add: upt_conv_Cons)
  with rs cov show ?thesis by simp
qed

subsection \<open>The remote ledger client\<close>


lemma call_etherscan_exhausted:
  "(\<forall>i<retries. rate_limited api (calls s + i) sb eb) \<Longrightarrow>
   call_etherscan api tid sb eb retries s =
     (Inl RateLimitReached,
      s\<lparr>calls := calls s + retries, sem_acquired := sem_acquired s + retries,
        sem_released := sem_released s + retries,
        error_log := error_log s @ [(tid, sb, eb)]\<rparr>)"
proof (induction retries arbitrary: s)
  case 0
  then show ?case by simp
next
  case (Suc retries)
  let ?s' = "s\<lparr>calls := Suc (calls s), sem_acquired := Suc (sem_acquired s),
                sem_released := Suc (sem_released s)\<rparr>"
  have first: "rate_limited api (calls s) sb eb" using Suc.prems [rule_format, of 0] by simp
  have rest: "\<forall>i<retries. rate_limited api (calls ?s' + i) sb eb"
    using Suc.prems by auto
  show ?case
    using first Suc.IH [OF rest] by (simp add: rate_limited_def)
qed

lemma call_etherscan_answer:
  "j < retries \<Longrightarrow> (\<forall>i<j. rate_limited api (calls s + i) sb eb) \<Longrightarrow>
   \<not> rate_limited api (calls s + j) sb eb \<Longrightarrow>
   call_etherscan api tid sb eb retries s =
     (case api (calls s + j) sb eb of
        Failure e \<Rightarrow> Inl e
      | Body None \<Rightarrow> Inl (KeyError ''result'')
      | Body (Some d) \<Rightarrow> Inr d,
      s\<lparr>calls := calls s + Suc j, sem_acquired := sem_acquired s + Suc j,
        sem_released := sem_released s + Suc j\<rparr>)"
proof (induction retries arbitrary: s j)
  case 0
  then show ?case by simp
next
  case (Suc retries)
  let ?s' = "s\<lparr>calls := Suc (calls s), sem_acquired := Suc (sem_acquired s),
                sem_released := Suc (sem_released s)\<rparr>"
  show ?case
  proof (cases j)
    case 0
    then show ?thesis using Suc.prems(3)
      by (auto simp: rate_limited_def split: http_outcome.splits option.splits)
  next
    case (Suc j')
    have first: "rate_limited api (calls s) sb eb" using Suc.prems(2) Suc by auto
    have a: "j' < retries" using Suc.prems(1) Suc by simp
    have b: "\<forall>i<j'. rate_limited api (calls ?s' + i) sb eb" using Suc.prems(2) Suc by auto
    have c: "\<not> rate_limited api (calls ?s' + j') sb eb" using Suc.prems(3) Suc by simp
    show ?thesis
      using first Suc.IH [OF a b c] Suc by (simp add: rate_limited_def)
  qed
qed

text \<open>
  C8. Let the first \<open>j\<close> requests of a call be answered with the rate-limit body.
  If \<open>j\<close> is below the retry count and request \<open>j\<close> is answered otherwise, the call
  ends there, after \<open>j + 1\<close> requests, each under its own acquisition of the
  semaphore: it returns the body's result, or raises the transport or parse failure
  unchanged, without another request. If all \<open>retries\<close> requests are rate limited,
  the call raises the rate-limit error after exactly \<open>retries\<close> requests, having
  logged the caller's thread id and the block range. The retry count of the code
  is the total number of requests.
\<close>

theorem call_etherscan_retries:
  "(j < retries \<and> (\<forall>i<j. rate_limited api (calls s + i) startblock endblock)
      \<and> \<not> rate_limited api (calls s + j) startblock endblock
     \<longrightarrow> call_etherscan api thread_id startblock endblock retries s =
           (case api (calls s + j) startblock endblock of
              Failure e \<Rightarrow> Inl e
            | Body None \<Rightarrow> Inl (KeyError ''result'')
            | Body (Some d) \<Rightarrow> Inr d,
            s\<lparr>calls := calls s + Suc j, sem_acquired := sem_acquired s + Suc j,
              sem_released := sem_released s + Suc j\<rparr>))
   \<and> ((\<forall>i<retries. rate_limited api (calls s + i) startblock endblock)
     \<longrightarrow> call_etherscan api thread_id startblock endblock retries s =
           (Inl RateLimitReached,
            s\<lparr>calls := calls s + retries, sem_acquired := sem_acquired s + retries,
              sem_released := sem_released s + retries,
              error_log := error_log s @ [(thread_id, startblock, endblock)]\<rparr>))"
  using call_etherscan_answer call_etherscan_exhausted by blast

theorem call_etherscan_retries_witness:
  "call_etherscan flaky_api (Some 7) 100 200 4 net0 =
     (Inl TransportError, \<lparr>calls = 3, sem_acquired = 3, sem_released = 3, error_log = []\<rparr>)
   \<and> call_etherscan limited_api (Some 7) 100 200 4 net0 =
     (Inl RateLimitReached,
      \<lparr>calls = 4, sem_acquired = 4, sem_released = 4, error_log = [(Some 7, 100, 200)]\<rparr>)"
proof -
  have a: "(2::nat) < 4 \<and> (\<forall>i<2. rate_limited flaky_api (calls net0 + i) 100 200)
      \<and> \<not> rate_limited flaky_api (calls net0 + 2) 100 200"
    by (simp add: rate_limited_def flaky_api_def net0_def)
  have b: "\<forall>i<4. rate_limited limited_api (calls net0 + i) 100 200"
    by (simp add: rate_limited_def limited_api_def)
  from call_etherscan_retries [of 2 4 flaky_api net0 100 200 "Some 7"] a
  have "call_etherscan flaky_api (Some 7) 100 200 4 net0 =
     (Inl TransportError, \<lparr>calls = 3, sem_acquired = 3, sem_released = 3, error_log = []\<rparr>)"
    by (simp add: flaky_api_def net0_def)
  moreover from call_etherscan_retries [of 2 4 limited_api net0 100 200 "Some 7"] b
  have "call_etherscan limited_api (Some 7) 100 200 4 net0 =
     (Inl RateLimitReached,
      \<lparr>calls = 4, sem_acquired = 4, sem_released = 4, error_log = [(Some 7, 100, 200)]\<rparr>)"
    by (simp add: net0_def)
  ultimately show ?thesis by simp
qed

subsection \<open>The producer's filter on one page\<close>



subsection \<open>The producer's loop\<close>


lemma call_etherscan_first:
  "api (calls s) sb eb = Body (Some d) \<Longrightarrow> d \<noteq> ResultStr ''Max rate limit reached'' \<Longrightarrow>
   call_etherscan api tid sb eb 4 s =
     (Inr d, s\<lparr>calls := Suc (calls s), sem_acquired := Suc (sem_acquired s),
               sem_released := Suc (sem_released s)\<rparr>)"
  using call_etherscan_answer [of 0 4 api s sb eb tid] by (simp add: rate_limited_def)

lemma sparse_base: "call_etherscan sparse_api tid 100 200 4 s =
  (Inr (ResultList [tx_160, tx_190]), s\<lparr>calls := Suc (calls s), sem_acquired := Suc (sem_acquired s),
               sem_released := Suc (sem_released s)\<rparr>)"
  by (rule call_etherscan_first) (simp_all add: sparse_api_def)

lemma sparse_small: "call_etherscan sparse_api tid 100 150 4 s =
  (Inr (ResultList []), s\<lparr>calls := Suc (calls s), sem_acquired := Suc (sem_acquired s),
               sem_released := Suc (sem_released s)\<rparr>)"
  by (rule call_etherscan_first) (simp_all add: sparse_api_def)

lemma overflow_sparse:
  "overflow_loop fuel example_cfg sparse_api tid 100 300 0 w 200 (ResultList [tx_160, tx_190]) s = None
   \<or> (\<exists>s'. overflow_loop fuel example_cfg sparse_api tid 100 300 0 w 200 (ResultList [tx_160, tx_190]) s
        = Some (Inr (50, 150, ResultList []), s'))"
proof (cases fuel)
  case 0
  then show ?thesis by simp
next
  case (Suc f)
  show ?thesis
  proof (cases f)
    case 0
    then show ?thesis using Suc by (simp add: example_cfg_def sparse_small)
  next
    case (Suc g)
    then show ?thesis using \<open>fuel = Suc f\<close> by (simp add: example_cfg_def sparse_small)
  qed
qed

lemma produce_loop_stuck:
  "current_block p = 100 \<Longrightarrow> produce_loop fuel example_cfg sparse_api tid 300 p = None"
proof (induction fuel arbitrary: p)
  case 0
  then show ?case by simp
next
  case (Suc fuel)
  let ?s1 = "(client p)\<lparr>calls := Suc (calls (client p)), sem_acquired := Suc (sem_acquired (client p)),
               sem_released := Suc (sem_released (client p))\<rparr>"
  have base: "BASE_BLOCK_ATTEMPT example_cfg = 100" by (simp add: example_cfg_def)
  from overflow_sparse [of fuel tid "block_window_amount p" ?s1]
  show ?case
  proof
    assume "overflow_loop fuel example_cfg sparse_api tid 100 300 0 (block_window_amount p) 200
              (ResultList [tx_160, tx_190]) ?s1 = None"
    then show ?thesis using Suc.prems by (simp add: base sparse_base falsy_def)
  next
    assume "\<exists>s'. overflow_loop fuel example_cfg sparse_api tid 100 300 0 (block_window_amount p) 200
              (ResultList [tx_160, tx_190]) ?s1 = Some (Inr (50, 150, ResultList []), s')"
    then obtain s' where "overflow_loop fuel example_cfg sparse_api tid 100 300 0 (block_window_amount p) 200
              (ResultList [tx_160, tx_190]) ?s1 = Some (Inr (50, 150, ResultList []), s')" by blast
    then show ?thesis using Suc.prems Suc.IH by (simp add: base sparse_base falsy_def)
  qed
qed

lemma sparse_api_small_window:
  "sparse_api n startblock (min (startblock + 20) ending)
     \<in> {Body (Some (ResultList [])), Body (Some (ResultList [tx_160])),
        Body (Some (ResultList [tx_190]))}"
  by (simp add: sparse_api_def)

text \<open>
  C4. The ledger of \<open>sparse_api\<close> has one transfer in block 160 and one in block
  190, and the page limit is 2: a window of the minimal size 20 never returns a
  full page. On the sub-range 100 to 300 the first window, 100 to 200, returns a
  full page; the next smaller window, 100 to 150, returns no record; the guard
  \<^verbatim>\<open>if data["result"]:\<close> then leaves \<^verbatim>\<open>current_block\<close> at 100, and the next
  iteration asks for 100 to 200 again. The producer does not return: whatever the
  fuel, the result is \<open>None\<close>.
\<close>

theorem producer_stuck_on_empty_window:
  "call_api_and_produce fuel example_cfg sparse_api 100 300 [] (Some 0) net0 = None
   \<and> sparse_api n startblock (min (startblock + 20) ending)
       \<in> {Body (Some (ResultList [])), Body (Some (ResultList [tx_160])),
          Body (Some (ResultList [tx_190]))}"
proof
  show "call_api_and_produce fuel example_cfg sparse_api 100 300 [] (Some 0) net0 = None"
    by (simp add: call_api_and_produce_def produce_loop_stuck)
  show "sparse_api n startblock (min (startblock + 20) ending)
       \<in> {Body (Some (ResultList [])), Body (Some (ResultList [tx_160])),
          Body (Some (ResultList [tx_190]))}"
    by (rule sparse_api_small_window)
qed

subsection \<open>The producer's filter over a run\<close>








subsection \<open>The identity resolver\<close>

lemma statement_no_fault: "faults d = [] \<Longrightarrow> statement d = (False, d)"
  by (simp add: statement_def)

lemma resolver_steps_sequential:
  "resolver_step a (resolver_step a (resolver_step a (At_query, d))) =
     lift_result (get_or_create_address d a)"
  by (auto simp: get_or_create_address_def Let_def split: prod.splits list.splits sum.splits)

lemma select_unique:
  "distinct (map address rows) \<Longrightarrow>
   filter (\<lambda>r. address r = a) rows = [] \<or>
   (\<exists>i. filter (\<lambda>r. address r = a) rows = [\<lparr>addr_id = i, address = a\<rparr>])"
proof (induction rows)
  case Nil
  then show ?case by simp
next
  case (Cons r rows)
  show ?case
  proof (cases "address r = a")
    case True
    then have "filter (\<lambda>r. address r = a) rows = []"
      using Cons.prems by (auto simp: filter_empty_conv image_iff)
    moreover have "r = \<lparr>addr_id = addr_id r, address = a\<rparr>" using True by simp
    ultimately show ?thesis using True by (metis filter.simps(2))
  next
    case False
    then show ?thesis using Cons by simp
  qed
qed

lemma select_member:
  "select_address d a = [r] \<Longrightarrow> r \<in> set (addresses d) \<and> address r = a"
proof -
  assume "select_address d a = [r]"
  then have "r \<in> set (filter (\<lambda>r. address r = a) (addresses d))"
    by (simp add: select_address_def)
  then show ?thesis by simp
qed

lemma resolver_step_inv:
  assumes "distinct (map address (addresses d))" and "faults d = []" and "resolved a d pc"
    and "resolver_step a (pc, d) = (pc', d')"
  shows "distinct (map address (addresses d')) \<and> faults d' = [] \<and> resolved a d' pc'
     \<and> (\<forall>q. resolved a d q \<longrightarrow> resolved a d' q) \<and> rank pc' \<le> rank pc - 1"
proof -
  from select_unique [OF assms(1), of a]
  consider (none) "select_address d a = []"
    | (one) i where "select_address d a = [\<lparr>addr_id = i, address = a\<rparr>]"
    by (auto simp: select_address_def)
  then show ?thesis
  proof cases
    case none
    then have notin: "a \<notin> address ` set (addresses d)"
      by (auto simp: select_address_def filter_empty_conv)
    show ?thesis
    proof (cases pc)
      case At_insert
      then show ?thesis using assms none notin
        by (auto simp: statement_no_fault insert_address_def resolved_def select_address_def
            split: resolver_pc.splits)
    qed (use assms none in \<open>auto simp: statement_no_fault resolved_def\<close>)
  next
    case one
    then have mem: "\<lparr>addr_id = i, address = a\<rparr> \<in> set (addresses d)"
      using select_member by blast
    show ?thesis
      using assms one mem
      by (cases pc) (auto simp: statement_no_fault insert_address_def resolved_def)
  qed
qed

lemma run_two_inv:
  assumes "distinct (map address (addresses d))" and "faults d = []"
    and "resolved a d p1" and "resolved a d p2"
    and "run_two a sched (p1, p2, d) = (q1, q2, d')"
  shows "distinct (map address (addresses d')) \<and> faults d' = []
     \<and> resolved a d' q1 \<and> resolved a d' q2
     \<and> rank q1 \<le> rank p1 - length (filter id sched)
     \<and> rank q2 \<le> rank p2 - length (filter Not sched)"
  using assms
proof (induction sched arbitrary: p1 p2 d)
  case Nil
  then show ?case by simp
next
  case (Cons w ws)
  show ?case
  proof (cases w)
    case True
    obtain p1' d1 where step: "resolver_step a (p1, d) = (p1', d1)" by (cases "resolver_step a (p1, d)")
    from resolver_step_inv [OF Cons.prems(1,2,3) step]
    have inv: "distinct (map address (addresses d1))" "faults d1 = []" "resolved a d1 p1'"
      "resolved a d1 p2" "rank p1' \<le> rank p1 - 1"
      using Cons.prems(4) by auto
    have run: "run_two a ws (p1', p2, d1) = (q1, q2, d')"
      using Cons.prems(5) True step by simp
    from Cons.IH [OF inv(1,2,3,4) run] inv(5) True show ?thesis by auto
  next
    case False
    obtain p2' d1 where step: "resolver_step a (p2, d) = (p2', d1)" by (cases "resolver_step a (p2, d)")
    from resolver_step_inv [OF Cons.prems(1,2,4) step]
    have inv: "distinct (map address (addresses d1))" "faults d1 = []" "resolved a d1 p2'"
      "resolved a d1 p1" "rank p2' \<le> rank p2 - 1"
      using Cons.prems(3) by auto
    have run: "run_two a ws (p1, p2', d1) = (q1, q2, d')"
      using Cons.prems(5) False step by simp
    from Cons.IH [OF inv(1,2,4,3) run] inv(5) False show ?thesis by auto
  qed
qed

lemma resolved_finished:
  assumes "distinct (map address (addresses d))" and "resolved a d p" and "rank p = 0"
  shows "\<exists>i. p = Returned (Some i) \<and> select_address d a = [\<lparr>addr_id = i, address = a\<rparr>]"
proof -
  from assms(2,3) obtain i where p: "p = Returned (Some i)"
    and mem: "\<lparr>addr_id = i, address = a\<rparr> \<in> set (addresses d)"
    by (cases p) (auto simp: resolved_def)
  from mem have in_sel: "\<lparr>addr_id = i, address = a\<rparr> \<in> set (select_address d a)"
    by (simp add: select_address_def)
  from select_unique [OF assms(1), of a]
  have "select_address d a = [] \<or> (\<exists>j. select_address d a = [\<lparr>addr_id = j, address = a\<rparr>])"
    by (simp add: select_address_def)
  with in_sel have "select_address d a = [\<lparr>addr_id = i, address = a\<rparr>]"
    by auto
  with p show ?thesis by simp
qed

text \<open>
  C6. Two workers resolve the same string against a store whose address strings
  are pairwise different and on which no statement fails otherwise. Under every
  schedule that lets each worker run its three statements, both return the same
  id, and the store then holds exactly one row with that string, with that id. A
  worker whose insert meets the row of the other goes through the
  \<^verbatim>\<open>IntegrityError\<close> handler, which reads the existing row. The schedule that
  runs one worker after the other is two calls in sequence
  (\<open>resolver_steps_sequential\<close>).
\<close>

theorem resolve_idempotent:
  assumes "distinct (map address (addresses d))" and "faults d = []"
    and "run_two a sched (At_query, At_query, d) = (p1, p2, d')"
    and "3 \<le> length (filter id sched)" and "3 \<le> length (filter Not sched)"
  shows "\<exists>i. p1 = Returned (Some i) \<and> p2 = Returned (Some i)
      \<and> select_address d' a = [\<lparr>addr_id = i, address = a\<rparr>]"
proof -
  have r: "resolved a d At_query" by (simp add: resolved_def)
  from run_two_inv [OF assms(1,2) r r assms(3)] assms(4,5)
  have inv: "distinct (map address (addresses d'))" "resolved a d' p1" "resolved a d' p2"
    "rank p1 = 0" "rank p2 = 0"
    by auto
  from resolved_finished [OF inv(1,2,4)] resolved_finished [OF inv(1,3,5)]
  show ?thesis by auto
qed

theorem resolve_idempotent_witness:
  "run_two ''0xabc'' [True, False, True, False, False, True] (At_query, At_query, db0) =
     (Returned (Some 1), Returned (Some 1),
      db0\<lparr>addresses := [\<lparr>addr_id = 1, address = ''0xabc''\<rparr>]\<rparr>)
   \<and> select_address (db0\<lparr>addresses := [\<lparr>addr_id = 1, address = ''0xabc''\<rparr>]\<rparr>) ''0xabc''
       = [\<lparr>addr_id = 1, address = ''0xabc''\<rparr>]"
proof -
  have run: "run_two ''0xabc'' [True, False, True, False, False, True] (At_query, At_query, db0) =
     (Returned (Some 1), Returned (Some 1),
      db0\<lparr>addresses := [\<lparr>addr_id = 1, address = ''0xabc''\<rparr>]\<rparr>)"
    by (simp add: db0_def statement_def select_address_def insert_address_def fresh_id_def)
  have h: "distinct (map address (addresses db0))" "faults db0 = []"
    "3 \<le> length (filter id [True, False, True, False, False, True])"
    "3 \<le> length (filter Not [True, False, True, False, False, True])"
    by (simp_all add: db0_def)
  from resolve_idempotent [OF h(1,2) run h(3,4)] run show ?thesis by simp
qed

lemma get_or_create_address_twice:
  assumes "distinct (map address (addresses d))" and "faults d = []"
  shows "\<exists>i d1. get_or_create_address d a = (Inr (Some i), d1)
     \<and> get_or_create_address d1 a = (Inr (Some i), d1)
     \<and> select_address d1 a = [\<lparr>addr_id = i, address = a\<rparr>]"
proof -
  obtain p1 d1 where one: "resolver_step a (resolver_step a (resolver_step a (At_query, d))) = (p1, d1)"
    by (cases "resolver_step a (resolver_step a (resolver_step a (At_query, d)))")
  have run: "run_two a [True, True, True] (At_query, At_query, d) = (p1, At_query, d1)"
    using one by (simp split: prod.splits)
  have r: "resolved a d At_query" by (simp add: resolved_def)
  from run_two_inv [OF assms r r run]
  have inv: "distinct (map address (addresses d1))" "faults d1 = []" "resolved a d1 p1" "rank p1 = 0"
    by auto
  from resolved_finished [OF inv(1,3,4)] obtain i where
    p1: "p1 = Returned (Some i)" and sel: "select_address d1 a = [\<lparr>addr_id = i, address = a\<rparr>]"
    by blast
  have first: "get_or_create_address d a = (Inr (Some i), d1)"
    using one p1 resolver_steps_sequential [of a d]
    by (cases "get_or_create_address d a" rule: lift_result.cases) auto
  have second: "get_or_create_address d1 a = (Inr (Some i), d1)"
    using sel inv(2) by (simp add: get_or_create_address_def statement_no_fault)
  from first second sel show ?thesis by blast
qed

subsection \<open>The consumer: evaluation on the example records, and what a run persists\<close>

lemmas py_int_eval = py_int_def strip_def is_space_def parse_nat_def is_digit_def digit_val_def

lemma tx_160_fields:
  "getitem tx_160 ''from'' = Inr ''0xa''" "getitem tx_160 ''to'' = Inr ''0xb''"
  "getitem tx_160 ''hash'' = Inr ''0xh1''"
  "int_field tx_160 ''blockNumber'' = Inr 160" "int_field tx_160 ''timeStamp'' = Inr 1700000000"
  "int_field tx_160 ''value'' = Inr 5" "int_field tx_160 ''gas'' = Inr 21000"
  "int_field tx_160 ''gasUsed'' = Inr 20000" "int_field tx_160 ''isError'' = Inr 0"
  by (simp_all add: tx_160_def transfer_def int_field_def getitem_def py_int_eval)

lemma build_160: "build_transaction tx_160 f t = Inr (entity_160 f t)"
  by (simp add: build_transaction_def tx_160_fields fromtimestamp_def entity_160_def)

lemma tx_malformed_fields:
  "getitem tx_malformed ''from'' = Inr ''0xa''" "getitem tx_malformed ''to'' = Inr ''0xb''"
  "int_field tx_malformed ''blockNumber'' = Inl ValueError"
  by (simp_all add: tx_malformed_def transfer_def int_field_def getitem_def py_int_eval)

lemma build_malformed: "build_transaction tx_malformed f t = Inl ValueError"
  by (simp add: build_transaction_def tx_malformed_fields)

lemmas store_eval = statement_def select_address_def insert_address_def fresh_id_def
  get_or_create_address_def bulk_save_objects_def save_def flush_full_def

lemma record_160:
  "consume_record example_cfg db0 [] tx_160 =
     (Inr (), db0\<lparr>addresses := [\<lparr>addr_id = 1, address = ''0xa''\<rparr>, \<lparr>addr_id = 2, address = ''0xb''\<rparr>]\<rparr>,
      [entity_160 (Some 1) (Some 2)])"
  by (simp add: consume_record_def tx_160_fields build_160 store_eval db0_def example_cfg_def
      eval_nat_numeral)

lemma record_160_fault:
  "consume_record example_cfg (db0\<lparr>faults := [True]\<rparr>) [] tx_160 =
     (Inr (), db0\<lparr>addresses := [\<lparr>addr_id = 1, address = ''0xb''\<rparr>]\<rparr>,
      [entity_160 None (Some 1)])"
  by (simp add: consume_record_def tx_160_fields build_160 store_eval db0_def example_cfg_def
      eval_nat_numeral)

lemma statement_transactions: "transactions (snd (statement d)) = transactions d"
  by (simp add: statement_def split: list.splits)

lemma statement_cases:
  obtains d1 where "statement d = (False, d1)" "transactions d1 = transactions d"
    "addresses d1 = addresses d"
  | d1 where "statement d = (True, d1)" "transactions d1 = transactions d"
    "addresses d1 = addresses d"
  by (cases "faults d"; cases "hd (faults d)") (auto simp: statement_def)

lemma get_or_create_address_transactions:
  "transactions (snd (get_or_create_address d a)) = transactions d"
proof -
  have st: "\<And>d. transactions (snd (statement d)) = transactions d"
    by (rule statement_transactions)
  show ?thesis
    using st [of d] st [of "snd (statement d)"] st [of "snd (statement (snd (statement d)))"]
    by (auto simp: get_or_create_address_def insert_address_def Let_def
        split: prod.splits list.splits sum.splits if_splits)
qed

lemma persists_more_refl: "persists_more d d"
  by (simp add: persists_more_def)

lemma persists_more_trans: "persists_more d d1 \<Longrightarrow> persists_more d1 d2 \<Longrightarrow> persists_more d d2"
  by (auto simp: persists_more_def)

lemma persists_more_same: "transactions d' = transactions d \<Longrightarrow> persists_more d d'"
  by (simp add: persists_more_def)

lemma first_conflict_None:
  "first_conflict seen batch = None \<Longrightarrow>
   distinct (map hash batch) \<and> set (map hash batch) \<inter> set seen = {}"
proof (induction batch arbitrary: seen)
  case Nil
  then show ?case by simp
next
  case (Cons t ts)
  from Cons.prems have a: "hash t \<notin> set seen" and b: "first_conflict (hash t # seen) ts = None"
    by (auto split: if_splits)
  from Cons.IH [OF b] a show ?case by auto
qed

lemma bulk_save_objects_cases:
  obtains (failed) d1 where "bulk_save_objects d batch = (Inl OperationalError, d1)"
      "transactions d1 = transactions d"
  | (conflict) h d1 where "bulk_save_objects d batch = (Inl (IntegrityError h), d1)"
      "transactions d1 = transactions d"
      "first_conflict (map hash (transactions d)) batch = Some h"
  | (saved) d1 where "bulk_save_objects d batch = (Inr (), d1)"
      "transactions d1 = transactions d @ batch"
      "first_conflict (map hash (transactions d)) batch = None"
proof (rule statement_cases [of d])
  fix d1
  assume "statement d = (False, d1)" "transactions d1 = transactions d" "addresses d1 = addresses d"
  then show ?thesis
    by (cases "first_conflict (map hash (transactions d)) batch")
       (auto simp: bulk_save_objects_def intro: conflict saved)
next
  fix d1
  assume "statement d = (True, d1)" "transactions d1 = transactions d" "addresses d1 = addresses d"
  then show ?thesis by (auto simp: bulk_save_objects_def intro: failed)
qed

lemma save_persists_more: "persists_more d (fst (snd (save d batch)))"
proof (cases rule: bulk_save_objects_cases [of d batch])
  case (failed d1)
  then show ?thesis by (simp add: save_def persists_more_same)
next
  case (conflict h d1)
  then show ?thesis
    using statement_transactions [of d1]
    by (auto simp: save_def persists_more_def split: prod.splits)
next
  case (saved d1)
  from first_conflict_None [OF saved(3)] saved(1,2) show ?thesis
    by (auto simp: save_def persists_more_def)
qed

lemma flush_full_persists_more: "persists_more d (fst (snd (flush_full d batch)))"
proof -
  obtain r d1 b where s: "save d batch = (r, d1, b)" by (cases "save d batch")
  with save_persists_more [of d batch] have p: "persists_more d d1" by simp
  have "persists_more d1 (fst (snd (flush_full d batch)))"
    using s statement_transactions [of d1]
    by (cases r) (auto simp: flush_full_def persists_more_def split: prod.splits)
  with p show ?thesis by (rule persists_more_trans)
qed

lemma get_or_create_address_persists_more:
  "get_or_create_address d a = (r, d') \<Longrightarrow> persists_more d d'"
  using get_or_create_address_transactions [of d a] by (simp add: persists_more_same)

lemma consume_record_persists_more: "persists_more d (fst (snd (consume_record cfg d batch tx)))"
proof (cases "getitem tx ''from''")
  case (Inl e)
  then show ?thesis by (simp add: consume_record_def persists_more_refl)
next
  case sender: (Inr sender)
  obtain r1 d1 where g1: "get_or_create_address d sender = (r1, d1)"
    by (cases "get_or_create_address d sender")
  note p1 = get_or_create_address_persists_more [OF g1]
  show ?thesis
  proof (cases r1)
    case (Inl e)
    then show ?thesis using sender g1 p1 by (simp add: consume_record_def)
  next
    case from_id: (Inr from_id)
    show ?thesis
    proof (cases "getitem tx ''to''")
      case (Inl e)
      then show ?thesis using sender g1 p1 from_id by (simp add: consume_record_def)
    next
      case receiver: (Inr receiver)
      obtain r2 d2 where g2: "get_or_create_address d1 receiver = (r2, d2)"
        by (cases "get_or_create_address d1 receiver")
      note p2 = persists_more_trans [OF p1 get_or_create_address_persists_more [OF g2]]
      show ?thesis
      proof (cases r2)
        case (Inl e)
        then show ?thesis using sender g1 from_id receiver g2 p2 by (simp add: consume_record_def)
      next
        case to_id: (Inr to_id)
        show ?thesis
        proof (cases "build_transaction tx from_id to_id")
          case (Inl e)
          then show ?thesis
            using sender g1 from_id receiver g2 to_id p2 by (simp add: consume_record_def)
        next
          case (Inr t)
          have "persists_more d (fst (snd (flush_full d2 (batch @ [t]))))"
            using p2 flush_full_persists_more by (rule persists_more_trans)
          then show ?thesis
            using sender g1 from_id receiver g2 to_id Inr p2 by (simp add: consume_record_def)
        qed
      qed
    qed
  qed
qed

lemma consume_loop_persists_more: "persists_more d (fst (snd (consume_loop cfg d batch evs)))"
proof (induction evs arbitrary: d batch)
  case Nil
  then show ?case by (simp add: persists_more_refl)
next
  case (Cons ev evs)
  show ?case
  proof (cases ev)
    case (Got tx)
    obtain r d1 b where c: "consume_record cfg d batch tx = (r, d1, b)"
      by (cases "consume_record cfg d batch tx")
    with consume_record_persists_more [of d cfg batch tx] have p: "persists_more d d1" by simp
    show ?thesis
    proof (cases r)
      case (Inl e)
      then show ?thesis using Got c p by simp
    next
      case (Inr u)
      then show ?thesis using Got c persists_more_trans [OF p Cons.IH [of d1 b]] by simp
    qed
  next
    case (Timeout is_set)
    then show ?thesis using Cons.IH [of d batch] by (simp add: persists_more_refl)
  qed
qed

lemma consume_total:
  "\<exists>res. consume cfg d evs = Inr res \<and> session_closed res"
  by (auto simp: consume_def split: prod.splits sum.splits)

lemma consume_persists_more:
  "consume cfg d evs = Inr res \<Longrightarrow> persists_more d (final_db res)"
proof -
  assume c: "consume cfg d evs = Inr res"
  obtain r d1 batch where l: "consume_loop cfg d [] evs = (r, d1, batch)"
    by (cases "consume_loop cfg d [] evs")
  with consume_loop_persists_more [of d cfg "[]" evs] have p: "persists_more d d1" by simp
  have "final_db res = d1 \<or> final_db res = fst (snd (save d1 batch))"
    using c l by (auto simp: consume_def split: sum.splits if_splits prod.splits)
  then show ?thesis
    using p persists_more_trans [OF p save_persists_more [of d1 batch]] by auto
qed

subsection \<open>The consumer: flushes, exits and exceptions\<close>

lemma tx_160_again_fields:
  "getitem tx_160_again ''from'' = Inr ''0xa''" "getitem tx_160_again ''to'' = Inr ''0xc''"
  "getitem tx_160_again ''hash'' = Inr ''0xh1''"
  "int_field tx_160_again ''blockNumber'' = Inr 160" "int_field tx_160_again ''timeStamp'' = Inr 1700000000"
  "int_field tx_160_again ''value'' = Inr 8" "int_field tx_160_again ''gas'' = Inr 21000"
  "int_field tx_160_again ''gasUsed'' = Inr 20000" "int_field tx_160_again ''isError'' = Inr 0"
  by (simp_all add: tx_160_again_def transfer_def int_field_def getitem_def py_int_eval)

lemma build_160_again:
  "build_transaction tx_160_again f t = Inr ((entity_160 f t)\<lparr>tx_value := 8\<rparr>)"
  by (simp add: build_transaction_def tx_160_again_fields fromtimestamp_def entity_160_def)

lemmas consumer_eval = consume_def consume_record_def tx_160_fields build_160 tx_160_again_fields
  build_160_again tx_malformed_fields build_malformed store_eval db0_def example_cfg_def
  eval_nat_numeral entity_160_def

text \<open>
  Against C1 as stated: \<open>tx_160\<close> and \<open>tx_160_again\<close> carry the same hash and reach
  one consumer in the same batch. The final flush meets the conflict inside the
  batch, is rolled back, and the run ends with no row for that hash: not exactly
  one.
\<close>

theorem duplicate_in_one_batch_counterexample:
  "consume example_cfg db0 [Got tx_160, Got tx_160_again] =
     Inr \<lparr>final_db = db0\<lparr>addresses := [\<lparr>addr_id = 1, address = ''0xa''\<rparr>,
                                        \<lparr>addr_id = 2, address = ''0xb''\<rparr>,
                                        \<lparr>addr_id = 3, address = ''0xc''\<rparr>]\<rparr>,
          session_closed = True, caught = None,
          lost_batch = [entity_160 (Some 1) (Some 2),
                        (entity_160 (Some 1) (Some 3))\<lparr>tx_value := 8\<rparr>]\<rparr>
   \<and> length (filter (\<lambda>t. hash t = ''0xh1'')
         (transactions (db0\<lparr>addresses := [\<lparr>addr_id = 1, address = ''0xa''\<rparr>,
                                           \<lparr>addr_id = 2, address = ''0xb''\<rparr>,
                                           \<lparr>addr_id = 3, address = ''0xc''\<rparr>]\<rparr>))) \<noteq> 1"
  by (simp add: consumer_eval)

text \<open>
  Against C9 as stated: after \<open>tx_160\<close> the batch holds one entity; the malformed
  record then raises \<^verbatim>\<open>ValueError\<close>, which leaves the loop. The consumer ends with
  its session closed, the entity still in the batch and no transaction persisted:
  the remaining batch is not flushed. The same record followed by a normal end of
  the loop is flushed.
\<close>

theorem error_exit_loses_batch_counterexample:
  "consume example_cfg db0 [Got tx_160, Got tx_malformed] =
     Inr \<lparr>final_db = db0\<lparr>addresses := [\<lparr>addr_id = 1, address = ''0xa''\<rparr>,
                                        \<lparr>addr_id = 2, address = ''0xb''\<rparr>]\<rparr>,
          session_closed = True, caught = Some ValueError,
          lost_batch = [entity_160 (Some 1) (Some 2)]\<rparr>
   \<and> consume example_cfg db0 [Got tx_160] =
     Inr \<lparr>final_db = db0\<lparr>addresses := [\<lparr>addr_id = 1, address = ''0xa''\<rparr>,
                                        \<lparr>addr_id = 2, address = ''0xb''\<rparr>],
                          transactions := [entity_160 (Some 1) (Some 2)]\<rparr>,
          session_closed = True, caught = None, lost_batch = []\<rparr>"
  by (simp add: consumer_eval)

text \<open>
  C2 at a failing input: the first database statement, the resolver's query for
  the sender of \<open>tx_160\<close>, fails with an error that is not an \<^verbatim>\<open>IntegrityError\<close>.
  The resolver returns \<^verbatim>\<open>None\<close>, and the consumer builds the entity with
  \<open>from_address_id = None\<close> and appends it to its batch: the record is not skipped.
\<close>

theorem unresolved_address_is_batched:
  "consume_record example_cfg (db0\<lparr>faults := [True]\<rparr>) [] tx_160 =
     (Inr (), db0\<lparr>addresses := [\<lparr>addr_id = 1, address = ''0xb''\<rparr>]\<rparr>,
      [entity_160 None (Some 1)])
   \<and> get_or_create_address (db0\<lparr>faults := [True]\<rparr>) ''0xa'' = (Inr None, db0)
   \<and> from_address_id (entity_160 None (Some 1)) = None"
  by (simp add: consumer_eval)

lemma count_hash_distinct:
  "distinct (map hash ts) \<Longrightarrow>
   length (filter (\<lambda>t. hash t = k) ts) \<le> 1
   \<and> (k \<in> set (map hash ts) \<longrightarrow> length (filter (\<lambda>t. hash t = k) ts) = 1)"
proof (induction ts)
  case Nil
  then show ?case by simp
next
  case (Cons t ts)
  show ?case
  proof (cases "hash t = k")
    case True
    then have "filter (\<lambda>t. hash t = k) ts = []"
      using Cons.prems by (auto simp: filter_empty_conv image_iff)
    then show ?thesis using True by simp
  next
    case False
    then show ?thesis using Cons by auto
  qed
qed

lemma save_conflict:
  assumes "faults d = []" and "first_conflict (map hash (transactions d)) batch = Some h"
  shows "save d batch = (Inr (), d, batch)" and "flush_full d batch = (Inr (), d, [])"
  using assms by (simp_all add: flush_full_def save_def bulk_save_objects_def statement_no_fault)

text \<open>
  C1, amended. A flush whose insert meets a duplicate hash is rolled back as a
  whole: the store is unchanged, nothing is retried, and the flush of a full batch
  leaves the batch empty. So a run of a consumer from a store with pairwise
  different hashes never ends with two rows of one hash, and a hash that had its
  row before the run has exactly one row after it.
\<close>

theorem flush_conflict_drops_batch:
  assumes "distinct (map hash (transactions d))"
  shows "(faults d = [] \<and> first_conflict (map hash (transactions d)) batch = Some h
            \<longrightarrow> flush_full d batch = (Inr (), d, []) \<and> save d batch = (Inr (), d, batch))
     \<and> (consume cfg d evs = Inr res
            \<longrightarrow> (\<forall>k. length (filter (\<lambda>t. hash t = k) (transactions (final_db res))) \<le> 1)
              \<and> (\<forall>k\<in>set (map hash (transactions d)).
                    length (filter (\<lambda>t. hash t = k) (transactions (final_db res))) = 1))"
proof (intro conjI impI)
  assume "faults d = [] \<and> first_conflict (map hash (transactions d)) batch = Some h"
  then show "flush_full d batch = (Inr (), d, [])" and "save d batch = (Inr (), d, batch)"
    using save_conflict by simp_all
next
  assume c: "consume cfg d evs = Inr res"
  from consume_persists_more [OF c] assms
  have dist: "distinct (map hash (transactions (final_db res)))"
    and ext: "\<exists>new. transactions (final_db res) = transactions d @ new"
    by (simp_all add: persists_more_def)
  show "\<forall>k. length (filter (\<lambda>t. hash t = k) (transactions (final_db res))) \<le> 1"
    using count_hash_distinct [OF dist] by blast
  show "\<forall>k\<in>set (map hash (transactions d)).
          length (filter (\<lambda>t. hash t = k) (transactions (final_db res))) = 1"
  proof
    fix k assume "k \<in> set (map hash (transactions d))"
    with ext have "k \<in> set (map hash (transactions (final_db res)))" by auto
    with count_hash_distinct [OF dist, of k]
    show "length (filter (\<lambda>t. hash t = k) (transactions (final_db res))) = 1" by blast
  qed
qed

theorem flush_conflict_drops_batch_witness:
  "flush_full db1 [(entity_160 (Some 1) (Some 3))\<lparr>tx_value := 8\<rparr>] = (Inr (), db1, [])
   \<and> (\<exists>res. consume example_cfg db1 [Got tx_160_again] = Inr res
         \<and> length (filter (\<lambda>t. hash t = ''0xh1'') (transactions (final_db res))) = 1)"
proof -
  have h1: "distinct (map hash (transactions db1))" by (simp add: db1_def)
  have h2: "faults db1 = [] \<and> first_conflict (map hash (transactions db1))
              [(entity_160 (Some 1) (Some 3))\<lparr>tx_value := 8\<rparr>] = Some ''0xh1''"
    by (simp add: db1_def entity_160_def)
  obtain res where run: "consume example_cfg db1 [Got tx_160_again] = Inr res"
    using consume_total by blast
  have h3: "''0xh1'' \<in> set (map hash (transactions db1))" by (simp add: db1_def entity_160_def)
  from flush_conflict_drops_batch [OF h1, of "[(entity_160 (Some 1) (Some 3))\<lparr>tx_value := 8\<rparr>]"
      "''0xh1''" example_cfg "[Got tx_160_again]" res] h2 run h3
  have "flush_full db1 [(entity_160 (Some 1) (Some 3))\<lparr>tx_value := 8\<rparr>] = (Inr (), db1, [])"
    and "length (filter (\<lambda>t. hash t = ''0xh1'') (transactions (final_db res))) = 1"
    by blast+
  with run show ?thesis by blast
qed

text \<open>
  C9, amended. The consumer always ends with its session closed. When the main
  loop ends normally, a remaining non-empty batch is flushed by the same \<open>save\<close> a
  full flush uses, and an exception of that flush is caught. When an exception
  leaves the loop, nothing is flushed: the store is as the loop left it, and the
  batch is lost.
\<close>

theorem consume_exit:
  "\<exists>res. consume cfg d evs = Inr res \<and> session_closed res
     \<and> (\<forall>d1 batch. consume_loop cfg d [] evs = (Inr (), d1, batch) \<longrightarrow>
           (batch = [] \<longrightarrow> final_db res = d1 \<and> caught res = None)
         \<and> (batch \<noteq> [] \<longrightarrow> final_db res = fst (snd (save d1 batch))
               \<and> caught res = (case fst (save d1 batch) of Inl e \<Rightarrow> Some e | Inr u \<Rightarrow> None)))
     \<and> (\<forall>e d1 batch. consume_loop cfg d [] evs = (Inl e, d1, batch) \<longrightarrow>
           final_db res = d1 \<and> lost_batch res = batch \<and> caught res = Some e)"
proof -
  obtain r d1 batch where l: "consume_loop cfg d [] evs = (r, d1, batch)"
    by (cases "consume_loop cfg d [] evs")
  obtain r' d2 b where s: "save d1 batch = (r', d2, b)" by (cases "save d1 batch")
  show ?thesis
  proof (cases r)
    case (Inl e)
    then show ?thesis using l by (simp add: consume_def)
  next
    case (Inr u)
    then show ?thesis using l s by (cases r') (simp_all add: consume_def)
  qed
qed

theorem consume_exit_witness:
  "\<exists>res. consume example_cfg db0 [Got tx_160, Timeout True, Got tx_malformed] = Inr res
     \<and> session_closed res \<and> caught res = None
     \<and> transactions (final_db res) = [entity_160 (Some 1) (Some 2)]"
proof -
  let ?d1 = "db0\<lparr>addresses := [\<lparr>addr_id = 1, address = ''0xa''\<rparr>, \<lparr>addr_id = 2, address = ''0xb''\<rparr>]\<rparr>"
  let ?evs = "[Got tx_160, Timeout True, Got tx_malformed]"
  have loop: "consume_loop example_cfg db0 [] ?evs = (Inr (), ?d1, [entity_160 (Some 1) (Some 2)])"
    by (simp add: record_160)
  have sv: "save ?d1 [entity_160 (Some 1) (Some 2)] =
      (Inr (), ?d1\<lparr>transactions := [entity_160 (Some 1) (Some 2)]\<rparr>, [])"
    by (simp add: store_eval db0_def)
  from consume_exit [of example_cfg db0 ?evs] obtain res where
    res: "consume example_cfg db0 ?evs = Inr res" "session_closed res"
    and normal: "\<forall>d1 batch. consume_loop example_cfg db0 [] ?evs = (Inr (), d1, batch) \<longrightarrow>
           (batch = [] \<longrightarrow> final_db res = d1 \<and> caught res = None)
         \<and> (batch \<noteq> [] \<longrightarrow> final_db res = fst (snd (save d1 batch))
               \<and> caught res = (case fst (save d1 batch) of Inl e \<Rightarrow> Some e | Inr u \<Rightarrow> None))"
    by blast
  from normal [rule_format, OF loop] sv
  have "final_db res = ?d1\<lparr>transactions := [entity_160 (Some 1) (Some 2)]\<rparr>" "caught res = None"
    by simp_all
  with res show ?thesis by simp
qed

lemma non_integer_field_raises:
  "has_non_integer_field tx \<Longrightarrow> \<exists>e. build_transaction tx f t = Inl e"
  by (auto simp: has_non_integer_field_def build_transaction_def split: sum.splits)

lemma consume_record_malformed:
  assumes "has_non_integer_field tx"
  shows "\<exists>e d1. consume_record cfg d batch tx = (Inl e, d1, batch)
     \<and> transactions d1 = transactions d"
proof (cases "getitem tx ''from''")
  case (Inl e)
  then show ?thesis by (simp add: consume_record_def)
next
  case sender: (Inr sender)
  obtain r1 d1 where g1: "get_or_create_address d sender = (r1, d1)"
    by (cases "get_or_create_address d sender")
  have t1: "transactions d1 = transactions d"
    using get_or_create_address_transactions [of d sender] g1 by simp
  show ?thesis
  proof (cases r1)
    case (Inl e)
    then show ?thesis using sender g1 t1 by (simp add: consume_record_def)
  next
    case from_id: (Inr from_id)
    show ?thesis
    proof (cases "getitem tx ''to''")
      case (Inl e)
      then show ?thesis using sender g1 t1 from_id by (simp add: consume_record_def)
    next
      case receiver: (Inr receiver)
      obtain r2 d2 where g2: "get_or_create_address d1 receiver = (r2, d2)"
        by (cases "get_or_create_address d1 receiver")
      have t2: "transactions d2 = transactions d"
        using get_or_create_address_transactions [of d1 receiver] g2 t1 by simp
      show ?thesis
      proof (cases r2)
        case (Inl e)
        then show ?thesis using sender g1 from_id receiver g2 t2 by (simp add: consume_record_def)
      next
        case to_id: (Inr to_id)
        from non_integer_field_raises [OF assms, of from_id to_id] obtain e where
          "build_transaction tx from_id to_id = Inl e" by blast
        then show ?thesis
          using sender g1 from_id receiver g2 to_id t2 by (simp add: consume_record_def)
      qed
    qed
  qed
qed

text \<open>
  C10. \<^verbatim>\<open>consume\<close> always returns, with its session closed: an exception that
  leaves the main loop is caught by \<^verbatim>\<open>except Exception\<close>, the store stays as it
  was when the exception was raised, and the batch in memory is lost. A dequeued
  record with a non-integer field among the six parsed ones makes the loop raise
  at that record, with the pending batch and the persisted transactions unchanged.
\<close>

theorem consume_never_raises:
  "(\<exists>res. consume cfg d evs = Inr res \<and> session_closed res
      \<and> (\<forall>e d1 batch. consume_loop cfg d [] evs = (Inl e, d1, batch) \<longrightarrow>
            caught res = Some e \<and> final_db res = d1 \<and> lost_batch res = batch))
   \<and> (has_non_integer_field tx
        \<longrightarrow> (\<exists>e d1. consume_loop cfg d batch (Got tx # evs') = (Inl e, d1, batch)
              \<and> transactions d1 = transactions d))"
proof (intro conjI impI)
  show "\<exists>res. consume cfg d evs = Inr res \<and> session_closed res
      \<and> (\<forall>e d1 batch. consume_loop cfg d [] evs = (Inl e, d1, batch) \<longrightarrow>
            caught res = Some e \<and> final_db res = d1 \<and> lost_batch res = batch)"
    by (auto simp: consume_def split: prod.splits sum.splits)
next
  assume "has_non_integer_field tx"
  from consume_record_malformed [OF this, of cfg d batch] obtain e d1 where
    "consume_record cfg d batch tx = (Inl e, d1, batch)" "transactions d1 = transactions d"
    by blast
  then show "\<exists>e d1. consume_loop cfg d batch (Got tx # evs') = (Inl e, d1, batch)
              \<and> transactions d1 = transactions d"
    by simp
qed

theorem consume_never_raises_witness:
  "\<exists>res e. consume example_cfg db0 [Got tx_malformed, Got tx_160] = Inr res
     \<and> session_closed res \<and> caught res = Some e \<and> transactions (final_db res) = []"
proof -
  have h: "has_non_integer_field tx_malformed"
    by (simp add: has_non_integer_field_def tx_malformed_fields)
  note inst = consume_never_raises [of example_cfg db0 "[Got tx_malformed, Got tx_160]"
      tx_malformed "[]" "[Got tx_160]"]
  from inst h obtain e d1 where
    loop: "consume_loop example_cfg db0 [] [Got tx_malformed, Got tx_160] = (Inl e, d1, [])"
    and tr: "transactions d1 = transactions db0"
    by blast
  from inst obtain res where
    res: "consume example_cfg db0 [Got tx_malformed, Got tx_160] = Inr res" "session_closed res"
    and esc: "\<forall>e d1 batch. consume_loop example_cfg db0 [] [Got tx_malformed, Got tx_160]
                = (Inl e, d1, batch) \<longrightarrow>
            caught res = Some e \<and> final_db res = d1 \<and> lost_batch res = batch"
    by blast
  from esc [rule_format, OF loop] tr have "caught res = Some e" "transactions (final_db res) = []"
    by (simp_all add: db0_def)
  with res show ?thesis by blast
qed

end
